theory Spec2Isabelle
  imports Complex_Main
begin

section \<open>The camera, viewport and virtualised grid of \<open>CanvasAnimation\<close> (src/render.ts)\<close>

text \<open>
  The class \<open>CanvasAnimation\<close> is embedded as a record of its fields and one function
  per method, each taking the state and returning the updated one.

  Numbers: the source computes with JavaScript numbers. They are modelled as \<open>real\<close>,
  and the results of \<open>Math.floor\<close> and of \<open>%\<close> on such results as \<open>int\<close>. Rounding,
  infinities and NaN are therefore outside the model. Where the source divides, the
  statements about the value of the quotient are made for states in which the
  divisor is not zero (HOL's \<open>a / 0 = 0\<close> is not what the source computes): the cell
  dimensions are assumed positive, and the scale is 1 in every reachable state.

  The drawing context \<open>ctx\<close>, \<open>isOffscreen\<close> and \<open>debugConfig\<close> are the drawing backend
  and hold no state that the methods below read back; they are left out. What
  \<open>render\<close> draws is returned as a list of the rectangles passed to \<open>ctx.rect\<close>.
\<close>

subsection \<open>Geometry types (src/types, imported by render.ts)\<close>

text \<open>
  \<open>Vec2 = {x, y}\<close>, \<open>Vec3 = {x, y, z}\<close>, \<open>Box = {minX, minY, maxX, maxY, width, height}\<close>.
  The fields \<open>x\<close>, \<open>y\<close>, \<open>z\<close> are named \<open>vx\<close>, \<open>vy\<close>, \<open>vz\<close> here: a selector called
  \<open>x\<close> would capture the variable \<open>x\<close> of every statement. \<open>Vec3\<close> extends \<open>Vec2\<close>
  and \<open>Box\<close> extends \<open>Size\<close> so that one selector reads the shared fields.
\<close>

record Vec2 =
  vx :: real
  vy :: real

record Vec3 = Vec2 +
  vz :: real

record Size =
  width :: real
  height :: real

record Box = Size +
  minX :: real
  minY :: real
  maxX :: real
  maxY :: real

record Grid =
  rows :: int
  cols :: int

record CellRef =
  index :: int
  col :: int
  row :: int

record Mouse =
  previous :: Vec2
  current :: Vec2

subsection \<open>The state of a \<open>CanvasAnimation\<close>\<close>

record state =
  camera :: Vec3
  canvas :: Box
  viewport :: Box
  grid :: Grid
  cell :: Size
  mouse :: "Mouse option"
  emojis :: "string list"
  pressStartPoint :: Vec2
  velocity :: Vec2
  activeCell :: CellRef
  hoveredCell :: CellRef
  framerate :: int
  prevTime :: real
  isPressed :: bool

definition zeroVec :: Vec2 where
  "zeroVec = \<lparr>vx = 0, vy = 0\<rparr>"

definition zeroBox :: Box where
  "zeroBox = \<lparr>width = 0, height = 0, minX = 0, minY = 0, maxX = 0, maxY = 0\<rparr>"

definition zeroCell :: CellRef where
  "zeroCell = \<lparr>index = 0, col = 0, row = 0\<rparr>"

text \<open>
  The field initialisers of the class. \<open>canvas\<close> and \<open>viewport\<close> have none in the
  source; the constructor assigns both (in \<open>resize\<close>) before anything reads them, and
  they start as \<open>zeroBox\<close> here. \<open>emojis\<close> is assigned last in the constructor.
\<close>

definition fields0 :: state where
  "fields0 =
     \<lparr>camera = \<lparr>vx = 0, vy = 0, vz = 1\<rparr>,
      canvas = zeroBox,
      viewport = zeroBox,
      grid = \<lparr>rows = 10, cols = 10\<rparr>,
      cell = \<lparr>width = 0, height = 0\<rparr>,
      mouse = None,
      emojis = [],
      pressStartPoint = zeroVec,
      velocity = zeroVec,
      activeCell = zeroCell,
      hoveredCell = zeroCell,
      framerate = 0,
      prevTime = 0,
      isPressed = False\<rparr>"

subsection \<open>Arithmetic of the source\<close>

text \<open>
  JavaScript's \<open>a % b\<close> on integral numbers: the remainder of the truncating division,
  with the sign of \<open>a\<close>. (For \<open>b = 0\<close> the source yields NaN; no statement below uses
  \<open>js_rem a 0\<close>.)
\<close>

definition js_rem :: "int \<Rightarrow> int \<Rightarrow> int" where
  "js_rem a b = sgn a * (\<bar>a\<bar> mod \<bar>b\<bar>)"

subsection \<open>Camera and viewport\<close>

definition screenToCanvas :: "Vec2 \<Rightarrow> state \<Rightarrow> Vec2" where
  "screenToCanvas point s =
     \<lparr>vx = vx point / vz (camera s) - vx (camera s),
      vy = vy point / vz (camera s) - vy (camera s)\<rparr>"

definition panCamera :: "real \<Rightarrow> real \<Rightarrow> state \<Rightarrow> state" where
  "panCamera dx dy s =
     (let c = camera s;
          cx = (if - vx c < 0 then - width (canvas s)
                else if - vx c > width (canvas s) then 0
                else vx c - dx / vz c);
          cy = (if - vy c < 0 then - height (canvas s)
                else if - vy c > height (canvas s) then 0
                else vy c - dy / vz c)
      in s\<lparr>camera := c\<lparr>vx := cx, vy := cy\<rparr>,
            viewport :=
              \<lparr>width = width (viewport s),
               height = height (viewport s),
               minX = - cx,
               minY = - cy,
               maxX = - cx + width (viewport s),
               maxY = - cy + height (viewport s)\<rparr>\<rparr>)"

definition resize :: "real \<Rightarrow> real \<Rightarrow> state \<Rightarrow> state" where
  "resize w h s =
     (let vp = \<lparr>width = w,
                height = h,
                minX = - vx (camera s),
                minY = - vy (camera s),
                maxX = - vx (camera s) + w,
                maxY = - vy (camera s) + h\<rparr>;
          cellWidth = max (width vp / 4) (height vp / 4);
          cl = \<lparr>width = cellWidth, height = (cellWidth / 4) * 5\<rparr>
      in s\<lparr>viewport := vp,
            cell := cl,
            canvas :=
              \<lparr>width = width cl * of_int (cols (grid s)),
               height = height cl * of_int (rows (grid s)),
               minX = 0,
               minY = 0,
               maxX = width cl * of_int (cols (grid s)),
               maxY = height cl * of_int (rows (grid s))\<rparr>\<rparr>)"

text \<open>
  The constructor: \<open>resize(width, height)\<close>, then
  \<open>emojis.slice(0, grid.cols * grid.rows)\<close>. The list \<open>emojis\<close> of src/emojis is not
  among the sources and is the parameter \<open>em\<close>.
\<close>

definition constructor :: "string list \<Rightarrow> real \<Rightarrow> real \<Rightarrow> state" where
  "constructor em w h =
     (let s = resize w h fields0
      in s\<lparr>emojis := take (nat (cols (grid s) * rows (grid s))) em\<rparr>)"

subsection \<open>Inertia\<close>

definition animateVelocity :: "state \<Rightarrow> state" where
  "animateVelocity s =
     (if isPressed s then s
      else if vx (velocity s) = 0 \<and> vy (velocity s) = 0 then s
      else if \<bar>vx (velocity s)\<bar> < 0.1 \<and> \<bar>vy (velocity s)\<bar> < 0.1
        then s\<lparr>velocity := \<lparr>vx = 0, vy = 0\<rparr>\<rparr>
      else (let s1 = panCamera (vx (velocity s)) (vy (velocity s)) s
            in s1\<lparr>velocity := \<lparr>vx = vx (velocity s1) * 0.9, vy = vy (velocity s1) * 0.9\<rparr>\<rparr>))"

subsection \<open>The cell addressor\<close>

definition getCellIndexFromPoint :: "real \<Rightarrow> real \<Rightarrow> state \<Rightarrow> CellRef" where
  "getCellIndexFromPoint px py s =
     (let canvasPoint = screenToCanvas \<lparr>vx = px, vy = py\<rparr> s;
          c = js_rem \<lfloor>vx canvasPoint / width (cell s)\<rfloor> (cols (grid s));
          r = js_rem \<lfloor>vy canvasPoint / height (cell s)\<rfloor> (rows (grid s));
          nCol = (if c \<ge> 0 then c else cols (grid s) + c);
          nRow = (if r \<ge> 0 then r else rows (grid s) + r)
      in \<lparr>index = nCol + nRow * cols (grid s), col = nCol, row = nRow\<rparr>)"

subsection \<open>The render loop\<close>

text \<open>
  One iteration of the loop of \<open>render\<close>, for the index \<open>i\<close>. The constants of the
  loop body keep their names; note that the source calls \<open>i % cols\<close> the \<open>rowIndex\<close>.
\<close>

definition rowIndex :: "state \<Rightarrow> nat \<Rightarrow> int" where
  "rowIndex s i = js_rem (int i) (cols (grid s))"

definition colIndex :: "state \<Rightarrow> nat \<Rightarrow> int" where
  "colIndex s i = \<lfloor>real i / real_of_int (cols (grid s))\<rfloor>"

definition cellMinX :: "state \<Rightarrow> nat \<Rightarrow> real" where
  "cellMinX s i = vx (camera s) + of_int (rowIndex s i) * width (cell s)"

definition cellMinY :: "state \<Rightarrow> nat \<Rightarrow> real" where
  "cellMinY s i = vy (camera s) + of_int (colIndex s i) * height (cell s)"

definition shiftX :: "state \<Rightarrow> nat \<Rightarrow> real" where
  "shiftX s i =
     (if cellMinX s i + width (cell s) < 0 then width (canvas s)
      else if cellMinX s i > width (viewport s) + width (cell s) then - width (canvas s)
      else 0)"

definition shiftY :: "state \<Rightarrow> nat \<Rightarrow> real" where
  "shiftY s i =
     (if cellMinY s i + height (cell s) < 0 then height (canvas s)
      else if cellMinY s i > height (viewport s) + height (cell s) then - height (canvas s)
      else 0)"

definition isVisibleX :: "state \<Rightarrow> nat \<Rightarrow> bool" where
  "isVisibleX s i \<longleftrightarrow>
     shiftX s i + cellMinX s i + width (cell s) < width (viewport s) + width (cell s)"

definition isVisibleY :: "state \<Rightarrow> nat \<Rightarrow> bool" where
  "isVisibleY s i \<longleftrightarrow>
     shiftY s i + cellMinY s i + height (cell s) < height (viewport s) + height (cell s)"

text \<open>
  A drawn cell: the loop index and the arguments of \<open>ctx.rect\<close>. The context is
  translated by \<open>(camera.x, camera.y)\<close> while the loop runs, so the rectangle appears
  on the screen at \<open>camera.x + rect_x\<close>, \<open>camera.y + rect_y\<close>. The two \<open>fillText\<close>
  calls that follow draw at offsets from the same corner and are not recorded.
\<close>

record DrawnCell =
  idx :: nat
  rect_x :: real
  rect_y :: real
  rect_w :: real
  rect_h :: real

definition drawCell :: "state \<Rightarrow> nat \<Rightarrow> DrawnCell" where
  "drawCell s i =
     \<lparr>idx = i,
      rect_x = of_int (rowIndex s i) * width (cell s) + shiftX s i,
      rect_y = of_int (colIndex s i) * height (cell s) + shiftY s i,
      rect_w = width (cell s),
      rect_h = height (cell s)\<rparr>"

function render_loop :: "state \<Rightarrow> nat \<Rightarrow> DrawnCell list" where
  "render_loop s i =
     (if i < length (emojis s)
      then (if \<not> isVisibleX s i \<or> \<not> isVisibleY s i
            then render_loop s (Suc i)
            else drawCell s i # render_loop s (Suc i))
      else [])"
  by pat_completeness auto
termination
  by (relation "measure (\<lambda>(s, i). length (emojis s) - i)") auto

declare render_loop.simps [simp del]

text \<open>
  \<open>drawDebugPanel\<close> (\<open>debugConfig.show\<close> is always true): of its effects only the
  two fields it writes are kept. Whether the frame rate is recomputed depends on a
  comparison of the decimal digits of two printed numbers; its outcome is the
  parameter \<open>rollover\<close>.
\<close>

definition drawDebugPanel :: "bool \<Rightarrow> real \<Rightarrow> state \<Rightarrow> state" where
  "drawDebugPanel rollover timestamp s =
     (let dTime = timestamp - prevTime s;
          s1 = s\<lparr>prevTime := timestamp\<rparr>
      in if rollover
         then (let nextFramerate = \<lfloor>1000 / dTime\<rfloor>
               in s1\<lparr>framerate := (if nextFramerate > 0 then nextFramerate else 0)\<rparr>)
         else s1)"

text \<open>\<open>render\<close> returns the cells it draws and the state it leaves.\<close>

definition render :: "bool \<Rightarrow> real \<Rightarrow> state \<Rightarrow> DrawnCell list \<times> state" where
  "render rollover timestamp s =
     (let s1 = animateVelocity s
      in (render_loop s1 0, drawDebugPanel rollover timestamp s1))"

subsection \<open>Pointer events\<close>

definition onMove :: "real \<Rightarrow> real \<Rightarrow> state \<Rightarrow> state" where
  "onMove px py s =
     (let m = (case mouse s of
                 None \<Rightarrow> \<lparr>previous = \<lparr>vx = px, vy = py\<rparr>, current = \<lparr>vx = px, vy = py\<rparr>\<rparr>
               | Some m0 \<Rightarrow>
                   \<lparr>previous = \<lparr>vx = vx (current m0), vy = vy (current m0)\<rparr>,
                    current = \<lparr>vx = px, vy = py\<rparr>\<rparr>);
          s1 = s\<lparr>mouse := Some m\<rparr>;
          s2 = (if isPressed s1
                then (let v = \<lparr>vx = vx (previous m) - vx (current m),
                               vy = vy (previous m) - vy (current m)\<rparr>
                      in panCamera (vx v) (vy v) (s1\<lparr>velocity := v\<rparr>))
                else s1)
      in s2\<lparr>hoveredCell := getCellIndexFromPoint px py s2\<rparr>)"

text \<open>The optional arguments \<open>x\<close>, \<open>y\<close> of \<open>onPress\<close> are \<open>None\<close> when \<open>undefined\<close>.\<close>

definition onPress :: "bool \<Rightarrow> real option \<Rightarrow> real option \<Rightarrow> state \<Rightarrow> state" where
  "onPress pressed xo yo s =
     (let s1 = s\<lparr>isPressed := pressed\<rparr>
      in if pressed
         then (let s2 = s1\<lparr>velocity := \<lparr>vx = 0, vy = 0\<rparr>\<rparr>
               in case (xo, yo) of
                    (Some px, Some py) \<Rightarrow> s2\<lparr>pressStartPoint := \<lparr>vx = px, vy = py\<rparr>\<rparr>
                  | _ \<Rightarrow> s2)
         else (case (xo, yo) of
                 (Some px, Some py) \<Rightarrow>
                   (if \<bar>vx (pressStartPoint s1) - px\<bar> < 10
                    then s1\<lparr>velocity := \<lparr>vx = 0, vy = 0\<rparr>\<rparr>
                    else s1)
               | _ \<Rightarrow> s1))"

definition onClick :: "real \<Rightarrow> real \<Rightarrow> state \<Rightarrow> state" where
  "onClick px py s =
     (if \<bar>vx (pressStartPoint s) - px\<bar> > 10 then s
      else s\<lparr>activeCell := getCellIndexFromPoint px py s\<rparr>)"

definition onWheel :: "real \<Rightarrow> real \<Rightarrow> state \<Rightarrow> state" where
  "onWheel deltaX deltaY s = panCamera (- deltaX) (- deltaY) s"

definition onResize :: "real \<Rightarrow> real \<Rightarrow> state \<Rightarrow> state" where
  "onResize w h s = resize w h s"

subsection \<open>Sequences of public operations\<close>

datatype event =
    Render bool real
  | Move real real
  | Press bool "real option" "real option"
  | Click real real
  | Wheel real real
  | Resize real real

fun apply_event :: "event \<Rightarrow> state \<Rightarrow> state" where
  "apply_event (Render ro ts) s = snd (render ro ts s)"
| "apply_event (Move px py) s = onMove px py s"
| "apply_event (Press p xo yo) s = onPress p xo yo s"
| "apply_event (Click px py) s = onClick px py s"
| "apply_event (Wheel ddx ddy) s = onWheel ddx ddy s"
| "apply_event (Resize w h) s = onResize w h s"

fun run :: "event list \<Rightarrow> state \<Rightarrow> state" where
  "run [] s = s"
| "run (e # es) s = run es (apply_event e s)"

text \<open>A sequence of \<open>panCamera\<close> calls, given by their arguments.\<close>

fun panSeq :: "(real \<times> real) list \<Rightarrow> state \<Rightarrow> state" where
  "panSeq [] s = s"
| "panSeq (d # ds) s = panSeq ds (panCamera (fst d) (snd d) s)"

text \<open>\<open>n\<close> calls of \<open>animateVelocity\<close> with nothing in between.\<close>

fun animateN :: "nat \<Rightarrow> state \<Rightarrow> state" where
  "animateN 0 s = s"
| "animateN (Suc n) s = animateN n (animateVelocity s)"

subsection \<open>Predicates on states\<close>

text \<open>The viewport rectangle is the one derived from the camera.\<close>

definition coupled :: "state \<Rightarrow> bool" where
  "coupled s \<longleftrightarrow>
     minX (viewport s) = - vx (camera s) \<and>
     minY (viewport s) = - vy (camera s) \<and>
     maxX (viewport s) = minX (viewport s) + width (viewport s) \<and>
     maxY (viewport s) = minY (viewport s) + height (viewport s)"

text \<open>
  What the constructor establishes and every public operation keeps: scale 1, the
  10 by 10 grid, the canvas extent as cell size times grid, at most \<open>cols * rows\<close>
  labels, and the coupling of viewport and camera.
\<close>

definition geom_inv :: "state \<Rightarrow> bool" where
  "geom_inv s \<longleftrightarrow>
     vz (camera s) = 1 \<and>
     cols (grid s) = 10 \<and> rows (grid s) = 10 \<and>
     width (canvas s) = width (cell s) * of_int (cols (grid s)) \<and>
     height (canvas s) = height (cell s) * of_int (rows (grid s)) \<and>
     int (length (emojis s)) \<le> cols (grid s) * rows (grid s) \<and>
     coupled s"

text \<open>
  The states in which \<open>panCamera\<close> takes its third branch on both axes: the
  negated camera position lies within the canvas extent, so the call subtracts the
  delta and does not snap to a boundary.
\<close>

definition inRange :: "state \<Rightarrow> bool" where
  "inRange s \<longleftrightarrow>
     0 \<le> - vx (camera s) \<and> - vx (camera s) \<le> width (canvas s) \<and>
     0 \<le> - vy (camera s) \<and> - vy (camera s) \<le> height (canvas s)"

text \<open>No call in a sequence of \<open>panCamera\<close> calls snaps.\<close>

fun noSnap :: "(real \<times> real) list \<Rightarrow> state \<Rightarrow> bool" where
  "noSnap [] s = True"
| "noSnap (d # ds) s = (inRange s \<and> noSnap ds (panCamera (fst d) (snd d) s))"

text \<open>A rectangle moved by \<open>(tx, ty)\<close>.\<close>

definition translateBox :: "real \<Rightarrow> real \<Rightarrow> Box \<Rightarrow> Box" where
  "translateBox tx ty b =
     b\<lparr>minX := minX b + tx, maxX := maxX b + tx, minY := minY b + ty, maxY := maxY b + ty\<rparr>"

section \<open>The invariant of reachable states\<close>

lemma coupled_panCamera: "coupled (panCamera dx dy s)"
  by (simp add: coupled_def panCamera_def Let_def)

lemma coupled_resize: "coupled (resize w h s)"
  by (simp add: coupled_def resize_def Let_def)

lemma geom_inv_panCamera: "geom_inv s \<Longrightarrow> geom_inv (panCamera dx dy s)"
  by (auto simp: geom_inv_def coupled_def panCamera_def Let_def)

lemma geom_inv_resize: "geom_inv s \<Longrightarrow> geom_inv (resize w h s)"
  by (auto simp: geom_inv_def coupled_def resize_def Let_def)

lemma geom_inv_animateVelocity: "geom_inv s \<Longrightarrow> geom_inv (animateVelocity s)"
  using geom_inv_panCamera [of s "vx (velocity s)" "vy (velocity s)"]
  by (auto simp: animateVelocity_def Let_def geom_inv_def coupled_def)

lemma geom_inv_drawDebugPanel: "geom_inv s \<Longrightarrow> geom_inv (drawDebugPanel ro ts s)"
  by (auto simp: drawDebugPanel_def Let_def geom_inv_def coupled_def)

lemma geom_inv_render: "geom_inv s \<Longrightarrow> geom_inv (snd (render ro ts s))"
  by (simp add: render_def Let_def geom_inv_drawDebugPanel geom_inv_animateVelocity)

lemma geom_inv_hovered: "geom_inv s \<Longrightarrow> geom_inv (s\<lparr>hoveredCell := c\<rparr>)"
  by (auto simp: geom_inv_def coupled_def)

lemma geom_inv_onMove: "geom_inv s \<Longrightarrow> geom_inv (onMove px py s)"
proof -
  assume a: "geom_inv s"
  have b: "geom_inv (s\<lparr>mouse := m, velocity := v\<rparr>)" for m v
    using a by (auto simp: geom_inv_def coupled_def)
  have c: "geom_inv (s\<lparr>mouse := m\<rparr>)" for m
    using a by (auto simp: geom_inv_def coupled_def)
  show ?thesis
    unfolding onMove_def Let_def
    by (auto intro!: geom_inv_hovered geom_inv_panCamera b c split: option.splits)
qed

lemma geom_inv_onPress: "geom_inv s \<Longrightarrow> geom_inv (onPress p xo yo s)"
  by (auto simp: onPress_def Let_def geom_inv_def coupled_def split: option.splits)

lemma geom_inv_onClick: "geom_inv s \<Longrightarrow> geom_inv (onClick px py s)"
  by (auto simp: onClick_def geom_inv_def coupled_def)

lemma geom_inv_apply_event: "geom_inv s \<Longrightarrow> geom_inv (apply_event e s)"
  by (cases e)
    (simp_all add: geom_inv_render geom_inv_onMove geom_inv_onPress geom_inv_onClick
      onWheel_def onResize_def geom_inv_panCamera geom_inv_resize)

lemma geom_inv_run: "geom_inv s \<Longrightarrow> geom_inv (run es s)"
  by (induction es arbitrary: s) (simp_all add: geom_inv_apply_event)

lemma geom_inv_constructor: "geom_inv (constructor em w h)"
  by (simp add: constructor_def geom_inv_def coupled_def resize_def Let_def fields0_def)

lemma geom_inv_reachable: "geom_inv (run es (constructor em w h))"
  by (rule geom_inv_run [OF geom_inv_constructor])

section \<open>Evaluating the model on concrete inputs\<close>

lemmas eval_defs = constructor_def resize_def fields0_def zeroBox_def zeroVec_def zeroCell_def
  panCamera_def onWheel_def onResize_def onMove_def onPress_def onClick_def render_def
  animateVelocity_def drawDebugPanel_def Let_def

lemmas loop_defs = drawCell_def isVisibleX_def isVisibleY_def shiftX_def shiftY_def
  cellMinX_def cellMinY_def rowIndex_def colIndex_def js_rem_def

section \<open>The remainder and the addressor\<close>

lemma js_rem_nonneg: "0 \<le> a \<Longrightarrow> 0 < b \<Longrightarrow> js_rem a b = a mod b"
  by (cases "a = 0") (simp_all add: js_rem_def)

lemma js_rem_normalised:
  assumes "0 < b"
  shows "(if js_rem a b \<ge> 0 then js_rem a b else b + js_rem a b) = a mod b"
proof (cases "0 \<le> a")
  case True
  then show ?thesis using assms by (simp add: js_rem_nonneg)
next
  case False
  then have neg: "a < 0" by simp
  then have r: "js_rem a b = - ((- a) mod b)"
    using assms by (simp add: js_rem_def)
  show ?thesis
  proof (cases "a mod b = 0")
    case True
    then show ?thesis using r by (simp add: zmod_zminus1_eq_if)
  next
    case False
    moreover have "0 \<le> a mod b" "a mod b < b" using assms by simp_all
    ultimately show ?thesis using r by (simp add: zmod_zminus1_eq_if)
  qed
qed

lemma getCell_math:
  assumes "0 < cols (grid s)" and "0 < rows (grid s)"
  shows "getCellIndexFromPoint px py s =
     \<lparr>index = \<lfloor>vx (screenToCanvas \<lparr>vx = px, vy = py\<rparr> s) / width (cell s)\<rfloor> mod cols (grid s)
              + \<lfloor>vy (screenToCanvas \<lparr>vx = px, vy = py\<rparr> s) / height (cell s)\<rfloor> mod rows (grid s) * cols (grid s),
      col = \<lfloor>vx (screenToCanvas \<lparr>vx = px, vy = py\<rparr> s) / width (cell s)\<rfloor> mod cols (grid s),
      row = \<lfloor>vy (screenToCanvas \<lparr>vx = px, vy = py\<rparr> s) / height (cell s)\<rfloor> mod rows (grid s)\<rparr>"
  unfolding getCellIndexFromPoint_def Let_def
  using js_rem_normalised [OF assms(1)] js_rem_normalised [OF assms(2)]
  by simp

lemma index_bounds:
  fixes c r nc nr :: int
  assumes "0 \<le> c" "c < nc" "0 \<le> r" "r < nr"
  shows "0 \<le> c + r * nc \<and> c + r * nc < nc * nr"
proof -
  have "r + 1 \<le> nr" using assms by simp
  then have "(r + 1) * nc \<le> nr * nc"
    using assms by (intro mult_right_mono) simp_all
  then have "c + r * nc < nc * nr" using assms by (simp add: algebra_simps)
  moreover have "0 \<le> r * nc" using assms by simp
  ultimately show ?thesis using assms by simp
qed

section \<open>The render loop\<close>

lemma set_render_loop:
  "set (render_loop s j) =
     {drawCell s i | i. j \<le> i \<and> i < length (emojis s) \<and> isVisibleX s i \<and> isVisibleY s i}"
proof (induction s j rule: render_loop.induct)
  case (1 s j)
  show ?case
  proof (cases "j < length (emojis s)")
    case False
    then show ?thesis by (subst render_loop.simps) auto
  next
    case True
    note lt = this
    show ?thesis
    proof (cases "isVisibleX s j \<and> isVisibleY s j")
      case True
      have "set (render_loop s j) = insert (drawCell s j) (set (render_loop s (Suc j)))"
        using lt True by (subst render_loop.simps) simp
      also have "\<dots> = insert (drawCell s j)
          {drawCell s i | i. Suc j \<le> i \<and> i < length (emojis s) \<and> isVisibleX s i \<and> isVisibleY s i}"
        using "1.IH"(2) lt True by simp
      also have "\<dots> = {drawCell s i | i. j \<le> i \<and> i < length (emojis s) \<and> isVisibleX s i \<and> isVisibleY s i}"
        using lt True by (auto simp: Suc_le_eq le_less)
      finally show ?thesis .
    next
      case False
      have "set (render_loop s j) = set (render_loop s (Suc j))"
        using lt False by (subst render_loop.simps) auto
      also have "\<dots> =
          {drawCell s i | i. Suc j \<le> i \<and> i < length (emojis s) \<and> isVisibleX s i \<and> isVisibleY s i}"
        using "1.IH"(1) lt False by auto
      also have "\<dots> = {drawCell s i | i. j \<le> i \<and> i < length (emojis s) \<and> isVisibleX s i \<and> isVisibleY s i}"
        using lt False by (auto simp: Suc_le_eq le_less)
      finally show ?thesis .
    qed
  qed
qed

lemma idx_drawCell [simp]: "idx (drawCell s i) = i"
  by (simp add: drawCell_def)

lemma floor_int_plus_half: "\<lfloor>of_int n + (1::real) / 2\<rfloor> = n"
  by (rule floor_unique) simp_all

lemma floor_centre:
  fixes cw :: real
  assumes "0 < cw"
  shows "\<lfloor>(of_int r * cw + of_int k * (cw * of_int c) + cw / 2) / cw\<rfloor> = r + k * c"
proof -
  have "(of_int r * cw + of_int k * (cw * of_int c) + cw / 2) / cw
          = of_int (r + k * c) + 1 / 2"
    using assms by (simp add: field_simps)
  then show ?thesis by (simp only: floor_int_plus_half)
qed

lemma shiftX_cases:
  "\<exists>k\<in>{-1, 0, 1::int}. shiftX s i = of_int k * width (canvas s)"
  by (simp add: shiftX_def)

lemma shiftY_cases:
  "\<exists>k\<in>{-1, 0, 1::int}. shiftY s i = of_int k * height (canvas s)"
  by (simp add: shiftY_def)

lemma rowIndex_eq: "0 < cols (grid s) \<Longrightarrow> rowIndex s i = int i mod cols (grid s)"
  by (simp add: rowIndex_def js_rem_nonneg)

lemma colIndex_eq: "colIndex s i = int i div cols (grid s)"
proof -
  have "real i / real_of_int (cols (grid s)) = of_int (int i) / of_int (cols (grid s))"
    by simp
  then show ?thesis
    unfolding colIndex_def by (simp only: floor_divide_of_int_eq)
qed

lemma addressor_at_centre:
  assumes inv: "geom_inv s"
    and cw: "0 < width (cell s)" and ch: "0 < height (cell s)"
    and i: "i < length (emojis s)"
  shows "getCellIndexFromPoint
           (vx (camera s) + rect_x (drawCell s i) + rect_w (drawCell s i) / 2)
           (vy (camera s) + rect_y (drawCell s i) + rect_h (drawCell s i) / 2) s
         = \<lparr>index = int i, col = int i mod 10, row = int i div 10\<rparr>"
proof -
  have g: "cols (grid s) = 10" "rows (grid s) = 10" and z: "vz (camera s) = 1"
    and cvw: "width (canvas s) = width (cell s) * of_int (cols (grid s))"
    and cvh: "height (canvas s) = height (cell s) * of_int (rows (grid s))"
    and len: "int (length (emojis s)) \<le> cols (grid s) * rows (grid s)"
    using inv by (auto simp: geom_inv_def)
  have pos: "0 < cols (grid s)" "0 < rows (grid s)" using g by simp_all
  obtain kx where kx: "shiftX s i = of_int kx * width (canvas s)"
    using shiftX_cases [of s i] by blast
  obtain ky where ky: "shiftY s i = of_int ky * height (canvas s)"
    using shiftY_cases [of s i] by blast
  have i100: "int i < 100" using i len g by simp
  have px: "vx (screenToCanvas
              \<lparr>vx = vx (camera s) + rect_x (drawCell s i) + rect_w (drawCell s i) / 2,
               vy = vy (camera s) + rect_y (drawCell s i) + rect_h (drawCell s i) / 2\<rparr> s)
            = of_int (rowIndex s i) * width (cell s)
              + of_int kx * (width (cell s) * of_int (cols (grid s))) + width (cell s) / 2"
    by (simp add: screenToCanvas_def drawCell_def z kx cvw)
  have py: "vy (screenToCanvas
              \<lparr>vx = vx (camera s) + rect_x (drawCell s i) + rect_w (drawCell s i) / 2,
               vy = vy (camera s) + rect_y (drawCell s i) + rect_h (drawCell s i) / 2\<rparr> s)
            = of_int (colIndex s i) * height (cell s)
              + of_int ky * (height (cell s) * of_int (rows (grid s))) + height (cell s) / 2"
    by (simp add: screenToCanvas_def drawCell_def z ky cvh)
  have c: "(rowIndex s i + kx * cols (grid s)) mod cols (grid s) = int i mod 10"
    by (simp add: rowIndex_eq [OF pos(1)] g)
  have "int i div 10 < 10" using i100 by simp
  then have r: "(colIndex s i + ky * rows (grid s)) mod rows (grid s) = int i div 10"
    by (simp add: colIndex_eq g)
  show ?thesis
    unfolding getCell_math [OF pos] px py floor_centre [OF cw] floor_centre [OF ch] c r
    by (simp add: g)
qed

text \<open>
  The loop has no test against the left and the top of the screen. In the state
  after \<open>onWheel(-50, 0)\<close> on a 400 by 500 surface with ten labels, the cell 9 is
  shifted left by the canvas width and drawn with its right edge at \<open>-50\<close>, wholly
  off the screen.
\<close>

lemma offscreen_cell_is_drawn:
  "drawCell (run [Wheel (-50) 0] (constructor (replicate 10 ''e'') 400 500)) 9
     \<in> set (fst (render False 0 (run [Wheel (-50) 0] (constructor (replicate 10 ''e'') 400 500)))) \<and>
   shiftX (run [Wheel (-50) 0] (constructor (replicate 10 ''e'') 400 500)) 9
     + cellMinX (run [Wheel (-50) 0] (constructor (replicate 10 ''e'') 400 500)) 9
     + width (cell (run [Wheel (-50) 0] (constructor (replicate 10 ''e'') 400 500))) = - 50"
proof -
  define S where "S = run [Wheel (-50) 0] (constructor (replicate 10 ''e'') 400 500)"
  define d where "d = drawCell S 9"
  have a: "animateVelocity S = S" by (simp add: S_def eval_defs)
  have "d = drawCell (animateVelocity S) 9 \<and> 9 < length (emojis (animateVelocity S)) \<and>
        isVisibleX (animateVelocity S) 9 \<and> isVisibleY (animateVelocity S) 9"
    unfolding a d_def by (simp add: S_def eval_defs loop_defs)
  then have "d \<in> set (fst (render False 0 S))"
    unfolding render_def Let_def fst_conv set_render_loop by blast
  then have mem: "drawCell S 9 \<in> set (fst (render False 0 S))"
    unfolding d_def .
  have "shiftX S 9 + cellMinX S 9 + width (cell S) = - 50"
    by (simp add: S_def eval_defs loop_defs)
  with mem show ?thesis unfolding S_def by blast
qed

section \<open>Panning without a snap\<close>

lemma panCamera_inRange:
  assumes "inRange s" and "vz (camera s) = 1" and "coupled s"
  shows "viewport (panCamera dx dy s) = translateBox dx dy (viewport s)"
    and "vz (camera (panCamera dx dy s)) = 1"
    and "canvas (panCamera dx dy s) = canvas s"
    and "cell (panCamera dx dy s) = cell s"
    and "grid (panCamera dx dy s) = grid s"
    and "vx (camera (panCamera dx dy s)) = vx (camera s) - dx"
    and "vy (camera (panCamera dx dy s)) = vy (camera s) - dy"
  using assms
  by (auto simp: inRange_def coupled_def panCamera_def Let_def translateBox_def)

lemma translateBox_add:
  "translateBox a b (translateBox c d bx) = translateBox (c + a) (d + b) bx"
  by (simp add: translateBox_def algebra_simps)

lemma translateBox_zero: "translateBox 0 0 b = b"
  by (simp add: translateBox_def)

lemma panSeq_noSnap:
  assumes "noSnap ds s" and "vz (camera s) = 1" and "coupled s"
  shows "viewport (panSeq ds s)
           = translateBox (sum_list (map fst ds)) (sum_list (map snd ds)) (viewport s) \<and>
         canvas (panSeq ds s) = canvas s \<and> cell (panSeq ds s) = cell s \<and>
         grid (panSeq ds s) = grid s \<and>
         vz (camera (panSeq ds s)) = 1 \<and>
         vx (camera (panSeq ds s)) = vx (camera s) - sum_list (map fst ds) \<and>
         vy (camera (panSeq ds s)) = vy (camera s) - sum_list (map snd ds)"
  using assms
proof (induction ds arbitrary: s)
  case Nil
  then show ?case by (simp add: translateBox_zero)
next
  case (Cons d ds)
  have r: "inRange s" and n: "noSnap ds (panCamera (fst d) (snd d) s)"
    using Cons.prems(1) by simp_all
  note p = panCamera_inRange [OF r Cons.prems(2,3), of "fst d" "snd d"]
  note ih = Cons.IH [OF n p(2) coupled_panCamera]
  show ?case
    using ih by (simp add: p translateBox_add)
qed

lemma floor_shift_period:
  fixes cw :: real
  assumes "0 < cw"
  shows "\<lfloor>(a + cw * of_int c) / cw\<rfloor> = \<lfloor>a / cw\<rfloor> + c"
proof -
  have "(a + cw * of_int c) / cw = a / cw + of_int c"
    using assms by (simp add: field_simps)
  then show ?thesis by simp
qed

text \<open>
  While no call snaps, a sequence of calls whose deltas sum to one canvas width moves
  the viewport by exactly one canvas width, and the addressor returns the same cell
  for every point before and after.
\<close>

lemma panSeq_one_period:
  assumes "geom_inv s"
    and "noSnap ds s"
    and "sum_list (map fst ds) = width (canvas s)"
    and "sum_list (map snd ds) = 0"
  shows "viewport (panSeq ds s)
           = (viewport s)\<lparr>minX := minX (viewport s) + width (canvas s),
                          maxX := maxX (viewport s) + width (canvas s)\<rparr> \<and>
         (0 < width (cell s) \<and> 0 < height (cell s) \<longrightarrow>
            getCellIndexFromPoint px py (panSeq ds s) = getCellIndexFromPoint px py s)"
proof -
  have z: "vz (camera s) = 1" and c: "coupled s"
    and g: "cols (grid s) = 10" "rows (grid s) = 10"
    and cvw: "width (canvas s) = width (cell s) * of_int (cols (grid s))"
    using assms(1) by (auto simp: geom_inv_def)
  note p = panSeq_noSnap [OF assms(2) z c, unfolded assms(3,4)]
  have v: "viewport (panSeq ds s)
           = (viewport s)\<lparr>minX := minX (viewport s) + width (canvas s),
                          maxX := maxX (viewport s) + width (canvas s)\<rparr>"
    using p by (simp add: translateBox_def)
  have a: "getCellIndexFromPoint px py (panSeq ds s) = getCellIndexFromPoint px py s"
    if cw: "0 < width (cell s)"
  proof -
    have pos: "0 < cols (grid s)" "0 < rows (grid s)" using g by simp_all
    have pos': "0 < cols (grid (panSeq ds s))" "0 < rows (grid (panSeq ds s))"
      using p pos by simp_all
    have x: "vx (screenToCanvas \<lparr>vx = px, vy = py\<rparr> (panSeq ds s))
              = vx (screenToCanvas \<lparr>vx = px, vy = py\<rparr> s) + width (cell s) * of_int (cols (grid s))"
      using p by (simp add: screenToCanvas_def z cvw)
    have y: "vy (screenToCanvas \<lparr>vx = px, vy = py\<rparr> (panSeq ds s))
              = vy (screenToCanvas \<lparr>vx = px, vy = py\<rparr> s)"
      using p by (simp add: screenToCanvas_def z)
    have cs: "cell (panSeq ds s) = cell s" "grid (panSeq ds s) = grid s" using p by simp_all
    show ?thesis
      unfolding getCell_math [OF pos] getCell_math [OF pos'] x y cs floor_shift_period [OF cw]
      by simp
  qed
  show ?thesis using v a by simp
qed

section \<open>Decay of the velocity\<close>

lemma animateVelocity_isPressed [simp]: "isPressed (animateVelocity s) = isPressed s"
  by (simp add: animateVelocity_def panCamera_def Let_def)

lemma animateVelocity_zero:
  "velocity s = \<lparr>vx = 0, vy = 0\<rparr> \<Longrightarrow> animateVelocity s = s"
  by (simp add: animateVelocity_def)

lemma animateN_zero:
  "velocity s = \<lparr>vx = 0, vy = 0\<rparr> \<Longrightarrow> velocity (animateN n s) = \<lparr>vx = 0, vy = 0\<rparr>"
  by (induction n arbitrary: s) (simp_all add: animateVelocity_zero)

lemma animateVelocity_cutoff:
  assumes "\<not> isPressed s" and "\<bar>vx (velocity s)\<bar> < 0.1" and "\<bar>vy (velocity s)\<bar> < 0.1"
  shows "velocity (animateVelocity s) = \<lparr>vx = 0, vy = 0\<rparr>"
  using assms by (cases "velocity s") (auto simp: animateVelocity_def)

lemma animateVelocity_decay:
  assumes "\<not> isPressed s" and "\<not> (\<bar>vx (velocity s)\<bar> < 0.1 \<and> \<bar>vy (velocity s)\<bar> < 0.1)"
  shows "velocity (animateVelocity s)
           = \<lparr>vx = vx (velocity s) * 0.9, vy = vy (velocity s) * 0.9\<rparr>"
  using assms by (auto simp: animateVelocity_def panCamera_def Let_def)

lemma animateN_reaches_zero:
  assumes "\<not> isPressed s"
    and "\<bar>vx (velocity s)\<bar> * 0.9 ^ n < 0.1" and "\<bar>vy (velocity s)\<bar> * 0.9 ^ n < 0.1"
  shows "velocity (animateN (Suc n) s) = \<lparr>vx = 0, vy = 0\<rparr>"
  using assms
proof (induction n arbitrary: s)
  case 0
  then show ?case by (simp add: animateVelocity_cutoff)
next
  case (Suc n)
  show ?case
  proof (cases "\<bar>vx (velocity s)\<bar> < 0.1 \<and> \<bar>vy (velocity s)\<bar> < 0.1")
    case True
    then have "velocity (animateVelocity s) = \<lparr>vx = 0, vy = 0\<rparr>"
      using Suc.prems(1) by (simp add: animateVelocity_cutoff)
    then show ?thesis
      using animateN_zero [of "animateVelocity s" "Suc n"] by simp
  next
    case False
    note d = animateVelocity_decay [OF Suc.prems(1) False]
    have "\<bar>vx (velocity (animateVelocity s))\<bar> * 0.9 ^ n < 0.1"
      "\<bar>vy (velocity (animateVelocity s))\<bar> * 0.9 ^ n < 0.1"
      using Suc.prems(2,3) by (simp_all add: d abs_mult mult.assoc)
    with Suc.IH [of "animateVelocity s"] Suc.prems(1)
    have "velocity (animateN (Suc n) (animateVelocity s)) = \<lparr>vx = 0, vy = 0\<rparr>"
      by simp
    then show ?thesis by simp
  qed
qed

lemma animateN_still_moving:
  assumes "\<not> isPressed s" and "0.1 \<le> \<bar>vx (velocity s)\<bar> * 0.9 ^ n"
  shows "velocity (animateN (Suc n) s)
           = \<lparr>vx = vx (velocity s) * 0.9 ^ Suc n, vy = vy (velocity s) * 0.9 ^ Suc n\<rparr>"
  using assms
proof (induction n arbitrary: s)
  case 0
  then have "\<not> (\<bar>vx (velocity s)\<bar> < 0.1 \<and> \<bar>vy (velocity s)\<bar> < 0.1)" by simp
  from animateVelocity_decay [OF "0.prems"(1) this] show ?case by simp
next
  case (Suc n)
  have "\<bar>vx (velocity s)\<bar> * 0.9 ^ Suc n \<le> \<bar>vx (velocity s)\<bar> * 1"
    by (intro mult_left_mono power_le_one) simp_all
  then have "\<not> (\<bar>vx (velocity s)\<bar> < 0.1 \<and> \<bar>vy (velocity s)\<bar> < 0.1)"
    using Suc.prems(2) by simp
  note d = animateVelocity_decay [OF Suc.prems(1) this]
  have "0.1 \<le> \<bar>vx (velocity (animateVelocity s))\<bar> * 0.9 ^ n"
    using Suc.prems(2) by (simp add: d abs_mult mult.assoc)
  with Suc.IH [of "animateVelocity s"] Suc.prems(1)
  have "velocity (animateN (Suc n) (animateVelocity s))
          = \<lparr>vx = vx (velocity (animateVelocity s)) * 0.9 ^ Suc n,
             vy = vy (velocity (animateVelocity s)) * 0.9 ^ Suc n\<rparr>"
    by simp
  then show ?case by (simp add: d mult.assoc)
qed

lemma bound_steps:
  fixes M :: real
  shows "\<exists>n. M * 0.9 ^ n < 0.1"
proof (cases "M \<le> 0")
  case True
  have "M * 0.9 ^ 0 < 0.1" using True by simp
  then show ?thesis by blast
next
  case False
  then have "0 < 0.1 / M" by simp
  then obtain n where "(0.9::real) ^ n < 0.1 / M"
    using real_arch_pow_inv [of "0.1 / M" "0.9"] by auto
  then have "M * 0.9 ^ n < 0.1" using False by (simp add: field_simps)
  then show ?thesis by blast
qed

section \<open>The claims\<close>

text \<open>
  C1 (addressor/iterator agreement). In every state reached from the constructor by
  public operations (the camera scale is 1 there) and with positive cell
  dimensions, for every cell \<open>d\<close> that \<open>render\<close> draws, \<open>getCellIndexFromPoint\<close> at the
  centre of the drawn rectangle on the screen (the translation by the camera, plus
  the rectangle's top-left corner, plus half its width and half its height), called
  in the state that \<open>render\<close> leaves, returns the loop index of \<open>d\<close>.
\<close>

theorem addressor_iterator_agreement:
  assumes "0 < width (cell (run es (constructor em w h)))"
    and "0 < height (cell (run es (constructor em w h)))"
    and "d \<in> set (fst (render ro ts (run es (constructor em w h))))"
  shows "vz (camera (snd (render ro ts (run es (constructor em w h))))) = 1 \<and>
         index (getCellIndexFromPoint
           (vx (camera (snd (render ro ts (run es (constructor em w h))))) + rect_x d + rect_w d / 2)
           (vy (camera (snd (render ro ts (run es (constructor em w h))))) + rect_y d + rect_h d / 2)
           (snd (render ro ts (run es (constructor em w h))))) = int (idx d)"
proof -
  define s where "s = run es (constructor em w h)"
  define s1 where "s1 = animateVelocity s"
  define s2 where "s2 = snd (render ro ts s)"
  have inv1: "geom_inv s1"
    unfolding s1_def s_def by (rule geom_inv_animateVelocity [OF geom_inv_reachable])
  have cell1: "cell s1 = cell s"
    by (simp add: s1_def animateVelocity_def panCamera_def Let_def)
  have s2: "s2 = drawDebugPanel ro ts s1"
    by (simp add: s2_def s1_def render_def Let_def)
  have same: "getCellIndexFromPoint px py s2 = getCellIndexFromPoint px py s1" for px py
    by (simp add: s2 drawDebugPanel_def Let_def getCellIndexFromPoint_def screenToCanvas_def)
  have cam: "camera s2 = camera s1"
    by (simp add: s2 drawDebugPanel_def Let_def)
  have "d \<in> set (render_loop s1 0)"
    using assms(3) by (simp add: render_def Let_def s1_def s_def)
  then obtain i where i: "i < length (emojis s1)" and d: "d = drawCell s1 i"
    unfolding set_render_loop by blast
  have cw: "0 < width (cell s1)" and ch: "0 < height (cell s1)"
    using assms(1,2) by (simp_all add: cell1 s_def)
  have "vz (camera s2) = 1" using inv1 by (simp add: cam geom_inv_def)
  moreover have "index (getCellIndexFromPoint
           (vx (camera s2) + rect_x d + rect_w d / 2)
           (vy (camera s2) + rect_y d + rect_h d / 2) s2) = int (idx d)"
    unfolding same cam d addressor_at_centre [OF inv1 cw ch i] by simp
  ultimately show ?thesis unfolding s2_def s_def by simp
qed

text \<open>
  An instance: after \<open>onWheel(50, 0)\<close> on a 400 by 500 surface the cell 9 is drawn
  as a wrapped ghost at \<open>rect_x = -125\<close>, and the addressor finds it.
\<close>

theorem addressor_iterator_agreement_witness:
  "\<lparr>idx = 9, rect_x = -125, rect_y = 0, rect_w = 125, rect_h = 625/4\<rparr>
     \<in> set (fst (render False 0 (run [Wheel 50 0] (constructor (replicate 10 ''e'') 400 500)))) \<and>
   index (getCellIndexFromPoint (50 + (-125) + 125 / 2) (0 + 0 + (625/4) / 2)
     (snd (render False 0 (run [Wheel 50 0] (constructor (replicate 10 ''e'') 400 500))))) = 9"
proof -
  define S where "S = run [Wheel 50 0] (constructor (replicate 10 ''e'') 400 500)"
  define d where "d = \<lparr>idx = 9, rect_x = -125, rect_y = 0, rect_w = 125, rect_h = 625/4\<rparr>"
  have cellS: "cell S = \<lparr>width = 125, height = 625/4\<rparr>"
    by (simp add: S_def eval_defs)
  have camS: "camera (snd (render False 0 S)) = \<lparr>vx = 50, vy = 0, vz = 1\<rparr>"
    by (simp add: S_def eval_defs)
  have "d = drawCell (animateVelocity S) 9 \<and> 9 < length (emojis (animateVelocity S)) \<and>
        isVisibleX (animateVelocity S) 9 \<and> isVisibleY (animateVelocity S) 9"
    by (simp add: S_def d_def eval_defs loop_defs)
  then have mem: "d \<in> set (fst (render False 0 S))"
    unfolding render_def Let_def fst_conv set_render_loop by blast
  have "index (getCellIndexFromPoint
           (vx (camera (snd (render False 0 S))) + rect_x d + rect_w d / 2)
           (vy (camera (snd (render False 0 S))) + rect_y d + rect_h d / 2)
           (snd (render False 0 S))) = int (idx d)"
    using addressor_iterator_agreement [of "[Wheel 50 0]" "replicate 10 ''e''" 400 500 d False 0]
      mem cellS unfolding S_def by simp
  then show ?thesis
    using mem unfolding camS unfolding d_def S_def by simp
qed

text \<open>
  C2 (which cells are drawn), as amended. The shift of a cell is the canvas width
  when the right edge of the cell is left of 0, minus the canvas width when its
  left edge is right of viewport width plus cell width, and 0 otherwise (and
  likewise vertically); the rectangle appears on the screen at the shifted position.
  Every cell that \<open>render\<close> draws is the rectangle of its index, and its shifted right
  and bottom edges are strictly below viewport dimension plus cell dimension.
  Every cell below the number of labels whose shifted right edge lies strictly
  between 0 and viewport width plus cell width, and whose shifted bottom edge lies
  strictly between 0 and viewport height plus cell height, is drawn: these are the
  cells that overlap the screen, and their shifted left and top edges may be negative.
  Nothing is said of the cells that lie wholly to the left of or above the screen.
\<close>

theorem visible_cells_are_drawn:
  assumes "s1 = animateVelocity s"
  shows "fst (render ro ts s) = render_loop s1 0 \<and>
    (\<forall>d \<in> set (fst (render ro ts s)).
       d = drawCell s1 (idx d) \<and> idx d < length (emojis s1) \<and>
       vx (camera s1) + rect_x d + rect_w d < width (viewport s1) + width (cell s1) \<and>
       vy (camera s1) + rect_y d + rect_h d < height (viewport s1) + height (cell s1)) \<and>
    (i < length (emojis s1) \<and>
     0 < shiftX s1 i + cellMinX s1 i + width (cell s1) \<and>
     shiftX s1 i + cellMinX s1 i + width (cell s1) < width (viewport s1) + width (cell s1) \<and>
     0 < shiftY s1 i + cellMinY s1 i + height (cell s1) \<and>
     shiftY s1 i + cellMinY s1 i + height (cell s1) < height (viewport s1) + height (cell s1)
       \<longrightarrow> drawCell s1 i \<in> set (fst (render ro ts s))) \<and>
    vx (camera s1) + rect_x (drawCell s1 i) = shiftX s1 i + cellMinX s1 i \<and>
    vy (camera s1) + rect_y (drawCell s1 i) = shiftY s1 i + cellMinY s1 i \<and>
    shiftX s1 i =
      (if cellMinX s1 i + width (cell s1) < 0 then width (canvas s1)
       else if cellMinX s1 i > width (viewport s1) + width (cell s1) then - width (canvas s1)
       else 0) \<and>
    shiftY s1 i =
      (if cellMinY s1 i + height (cell s1) < 0 then height (canvas s1)
       else if cellMinY s1 i > height (viewport s1) + height (cell s1) then - height (canvas s1)
       else 0)"
proof -
  have r: "fst (render ro ts s) = render_loop s1 0"
    by (simp add: render_def Let_def assms)
  have a: "d = drawCell s1 (idx d) \<and> idx d < length (emojis s1) \<and>
       vx (camera s1) + rect_x d + rect_w d < width (viewport s1) + width (cell s1) \<and>
       vy (camera s1) + rect_y d + rect_h d < height (viewport s1) + height (cell s1)"
    if "d \<in> set (render_loop s1 0)" for d
  proof -
    from that obtain j where j: "d = drawCell s1 j" "j < length (emojis s1)"
      "isVisibleX s1 j" "isVisibleY s1 j"
      unfolding set_render_loop by blast
    have "vx (camera s1) + rect_x d + rect_w d = shiftX s1 j + cellMinX s1 j + width (cell s1)"
      "vy (camera s1) + rect_y d + rect_h d = shiftY s1 j + cellMinY s1 j + height (cell s1)"
      by (simp_all add: j(1) drawCell_def cellMinX_def cellMinY_def)
    then show ?thesis
      using j by (simp add: isVisibleX_def isVisibleY_def)
  qed
  have b: "drawCell s1 i \<in> set (render_loop s1 0)"
    if "i < length (emojis s1) \<and>
     0 < shiftX s1 i + cellMinX s1 i + width (cell s1) \<and>
     shiftX s1 i + cellMinX s1 i + width (cell s1) < width (viewport s1) + width (cell s1) \<and>
     0 < shiftY s1 i + cellMinY s1 i + height (cell s1) \<and>
     shiftY s1 i + cellMinY s1 i + height (cell s1) < height (viewport s1) + height (cell s1)"
  proof -
    have "i < length (emojis s1) \<and> isVisibleX s1 i \<and> isVisibleY s1 i"
      using that by (simp add: isVisibleX_def isVisibleY_def)
    then show ?thesis unfolding set_render_loop by blast
  qed
  have c: "vx (camera s1) + rect_x (drawCell s1 i) = shiftX s1 i + cellMinX s1 i"
    "vy (camera s1) + rect_y (drawCell s1 i) = shiftY s1 i + cellMinY s1 i"
    by (simp_all add: drawCell_def cellMinX_def cellMinY_def)
  have d: "shiftX s1 i =
      (if cellMinX s1 i + width (cell s1) < 0 then width (canvas s1)
       else if cellMinX s1 i > width (viewport s1) + width (cell s1) then - width (canvas s1)
       else 0)"
    "shiftY s1 i =
      (if cellMinY s1 i + height (cell s1) < 0 then height (canvas s1)
       else if cellMinY s1 i > height (viewport s1) + height (cell s1) then - height (canvas s1)
       else 0)"
    by (simp_all add: shiftX_def shiftY_def)
  show ?thesis
    unfolding r using a b c d by blast
qed

theorem visible_cells_are_drawn_witness:
  "drawCell (run [Wheel (-50) 0] (constructor [''a''] 400 500)) 0
     \<in> set (fst (render False 0 (run [Wheel (-50) 0] (constructor [''a''] 400 500)))) \<and>
   shiftX (run [Wheel (-50) 0] (constructor [''a''] 400 500)) 0
     + cellMinX (run [Wheel (-50) 0] (constructor [''a''] 400 500)) 0 = - 50 \<and>
   vx (camera (run [Wheel (-50) 0] (constructor [''a''] 400 500)))
     + rect_x (drawCell (run [Wheel (-50) 0] (constructor [''a''] 400 500)) 0)
     + rect_w (drawCell (run [Wheel (-50) 0] (constructor [''a''] 400 500)) 0)
     < width (viewport (run [Wheel (-50) 0] (constructor [''a''] 400 500)))
       + width (cell (run [Wheel (-50) 0] (constructor [''a''] 400 500)))"
proof -
  define S where "S = run [Wheel (-50) 0] (constructor [''a''] 400 500)"
  have a: "S = animateVelocity S" by (simp add: S_def eval_defs)
  have h: "0 < length (emojis S) \<and>
       0 < shiftX S 0 + cellMinX S 0 + width (cell S) \<and>
       shiftX S 0 + cellMinX S 0 + width (cell S) < width (viewport S) + width (cell S) \<and>
       0 < shiftY S 0 + cellMinY S 0 + height (cell S) \<and>
       shiftY S 0 + cellMinY S 0 + height (cell S) < height (viewport S) + height (cell S)"
    and e: "shiftX S 0 + cellMinX S 0 = - 50"
    by (simp_all add: S_def eval_defs loop_defs)
  note t = visible_cells_are_drawn [OF a, of False 0 0]
  from t h have m: "drawCell S 0 \<in> set (fst (render False 0 S))"
    by blast
  from t have "\<forall>d \<in> set (fst (render False 0 S)).
       vx (camera S) + rect_x d + rect_w d < width (viewport S) + width (cell S)"
    by blast
  from bspec [OF this m]
  have "vx (camera S) + rect_x (drawCell S 0) + rect_w (drawCell S 0)
                 < width (viewport S) + width (cell S)" .
  with m e show ?thesis unfolding S_def by blast
qed

text \<open>
  C2 as stated fails: after \<open>onWheel(-50, 0)\<close> on a 400 by 500 surface the cell 0
  is drawn with shift 0 and its left edge on the screen is \<open>-50\<close>, which is below 0.
  The cell covers the screen from 0 to 75 and has to be drawn.
\<close>

theorem drawn_left_edge_negative:
  "\<lparr>idx = 0, rect_x = 0, rect_y = 0, rect_w = 125, rect_h = 625/4\<rparr>
     \<in> set (fst (render False 0 (run [Wheel (-50) 0] (constructor [''a''] 400 500)))) \<and>
   vx (camera (snd (render False 0 (run [Wheel (-50) 0] (constructor [''a''] 400 500))))) + 0 < 0 \<and>
   shiftX (run [Wheel (-50) 0] (constructor [''a''] 400 500)) 0
     + cellMinX (run [Wheel (-50) 0] (constructor [''a''] 400 500)) 0 = - 50"
proof -
  define S where "S = run [Wheel (-50) 0] (constructor [''a''] 400 500)"
  define d where "d = \<lparr>idx = 0, rect_x = 0, rect_y = 0, rect_w = 125, rect_h = 625/4\<rparr>"
  have "d = drawCell (animateVelocity S) 0 \<and> 0 < length (emojis (animateVelocity S)) \<and>
        isVisibleX (animateVelocity S) 0 \<and> isVisibleY (animateVelocity S) 0"
    by (simp add: S_def d_def eval_defs loop_defs)
  then have mem: "d \<in> set (fst (render False 0 S))"
    unfolding render_def Let_def fst_conv set_render_loop by blast
  have "vx (camera (snd (render False 0 S))) + 0 < 0"
    by (simp add: S_def eval_defs)
  moreover have "shiftX S 0 + cellMinX S 0 = - 50"
    by (simp add: S_def eval_defs loop_defs)
  ultimately show ?thesis using mem unfolding S_def d_def by simp
qed

text \<open>
  C3 (wrap continuity): a sequence of \<open>panCamera\<close> calls at scale 1 whose deltas sum
  to \<open>(canvas.width, 0)\<close> is to leave the viewport rectangle where it was. The code
  does not: evaluated on a 400 by 500 surface, where the canvas is 1250 wide and the
  viewport starts at \<open>minX = 0\<close>, \<open>maxX = 400\<close>, the calls \<open>panCamera(1300, 0)\<close>,
  \<open>panCamera(-25, 0)\<close>, \<open>panCamera(-25, 0)\<close> sum to \<open>(1250, 0)\<close>; the second call finds
  the camera beyond the canvas and sets it to 0, dropping the overshoot and its own
  delta, and the sequence ends at \<open>minX = -25\<close>, \<open>maxX = 375\<close>, with cell 9 instead
  of cell 0 under the point \<open>(10, 10)\<close>. The single call \<open>panCamera(1250, 0)\<close> ends
  at \<open>minX = 1250\<close>, one canvas width away. The three calls are what
  \<open>onWheel(-1300, 0)\<close>, \<open>onWheel(25, 0)\<close>, \<open>onWheel(25, 0)\<close> make.
\<close>

theorem pan_snap_breaks_wrap_continuity:
  "vz (camera (constructor [] 400 500)) = 1 \<and>
   width (canvas (constructor [] 400 500)) = 1250 \<and>
   sum_list (map fst [(1300, 0), (-25, 0), (-25, 0)]) = width (canvas (constructor [] 400 500)) \<and>
   sum_list (map snd [(1300::real, 0::real), (-25, 0), (-25, 0)]) = 0 \<and>
   viewport (constructor [] 400 500)
     = \<lparr>width = 400, height = 500, minX = 0, minY = 0, maxX = 400, maxY = 500\<rparr> \<and>
   viewport (panSeq [(1300, 0), (-25, 0), (-25, 0)] (constructor [] 400 500))
     = \<lparr>width = 400, height = 500, minX = - 25, minY = 0, maxX = 375, maxY = 500\<rparr> \<and>
   getCellIndexFromPoint 10 10 (constructor [] 400 500) = \<lparr>index = 0, col = 0, row = 0\<rparr> \<and>
   getCellIndexFromPoint 10 10 (panSeq [(1300, 0), (-25, 0), (-25, 0)] (constructor [] 400 500))
     = \<lparr>index = 9, col = 9, row = 0\<rparr> \<and>
   viewport (panSeq [(1250, 0)] (constructor [] 400 500))
     = \<lparr>width = 400, height = 500, minX = 1250, minY = 0, maxX = 1650, maxY = 500\<rparr> \<and>
   run [Wheel (-1300) 0, Wheel 25 0, Wheel 25 0] (constructor [] 400 500)
     = panSeq [(1300, 0), (-25, 0), (-25, 0)] (constructor [] 400 500)"
  by (simp add: eval_defs getCellIndexFromPoint_def screenToCanvas_def js_rem_def)

text \<open>
  C4 (modulo correctness). In every state reached from the constructor by public
  operations and with positive cell dimensions, for all coordinates \<open>(px, py)\<close>,
  negative ones included, \<open>getCellIndexFromPoint\<close> returns a column in
  \<open>[0, cols)\<close>, a row in \<open>[0, rows)\<close> and the index \<open>col + row * cols\<close>, which lies in
  \<open>[0, cols * rows)\<close>.
\<close>

theorem cell_in_grid:
  assumes "0 < width (cell (run es (constructor em w h)))"
    and "0 < height (cell (run es (constructor em w h)))"
  shows "0 \<le> col (getCellIndexFromPoint px py (run es (constructor em w h))) \<and>
         col (getCellIndexFromPoint px py (run es (constructor em w h)))
           < cols (grid (run es (constructor em w h))) \<and>
         0 \<le> row (getCellIndexFromPoint px py (run es (constructor em w h))) \<and>
         row (getCellIndexFromPoint px py (run es (constructor em w h)))
           < rows (grid (run es (constructor em w h))) \<and>
         index (getCellIndexFromPoint px py (run es (constructor em w h)))
           = col (getCellIndexFromPoint px py (run es (constructor em w h)))
             + row (getCellIndexFromPoint px py (run es (constructor em w h)))
               * cols (grid (run es (constructor em w h))) \<and>
         0 \<le> index (getCellIndexFromPoint px py (run es (constructor em w h))) \<and>
         index (getCellIndexFromPoint px py (run es (constructor em w h)))
           < cols (grid (run es (constructor em w h))) * rows (grid (run es (constructor em w h)))"
proof -
  define s where "s = run es (constructor em w h)"
  have g: "cols (grid s) = 10" "rows (grid s) = 10"
    using geom_inv_reachable [of es em w h] by (simp_all add: geom_inv_def s_def)
  have pos: "0 < cols (grid s)" "0 < rows (grid s)" using g by simp_all
  define c where "c = getCellIndexFromPoint px py s"
  have c: "0 \<le> col c" "col c < cols (grid s)" "0 \<le> row c" "row c < rows (grid s)"
    "index c = col c + row c * cols (grid s)"
    unfolding c_def getCell_math [OF pos] using pos by simp_all
  from index_bounds [OF c(1-4)] c show ?thesis
    unfolding s_def [symmetric] c_def [symmetric] by simp
qed

theorem cell_in_grid_witness:
  "0 < width (cell (run [Wheel 50 0] (constructor [] 400 500))) \<and>
   0 < height (cell (run [Wheel 50 0] (constructor [] 400 500))) \<and>
   0 \<le> col (getCellIndexFromPoint (-10) (-10) (run [Wheel 50 0] (constructor [] 400 500))) \<and>
   0 \<le> row (getCellIndexFromPoint (-10) (-10) (run [Wheel 50 0] (constructor [] 400 500))) \<and>
   index (getCellIndexFromPoint (-10) (-10) (run [Wheel 50 0] (constructor [] 400 500))) < 100"
proof -
  have c: "cell (run [Wheel 50 0] (constructor [] 400 500)) = \<lparr>width = 125, height = 625/4\<rparr>"
    by (simp add: eval_defs)
  have g: "grid (run [Wheel 50 0] (constructor [] 400 500)) = \<lparr>rows = 10, cols = 10\<rparr>"
    by (simp add: eval_defs)
  show ?thesis
    using cell_in_grid [of "[Wheel 50 0]" "[]" 400 500 "-10" "-10"] c g by simp
qed

text \<open>
  C5 (tap versus drag). In a state whose \<open>pressStartPoint\<close> is \<open>(x0, y0)\<close>, a release
  \<open>onPress(false, x, y)\<close> with \<open>|x0 - x| < 10\<close> leaves the velocity \<open>(0, 0)\<close>, and one
  with \<open>|x0 - x| \<ge> 10\<close> leaves the velocity as it was. Neither \<open>y0\<close> nor \<open>y\<close> occurs
  in the conditions: only the horizontal displacement is consulted. The first
  conjunct says that a press with coordinates records them as \<open>pressStartPoint\<close>.
\<close>

theorem tap_vs_drag:
  assumes "pressStartPoint s = \<lparr>vx = x0, vy = y0\<rparr>"
  shows "pressStartPoint (onPress True (Some x0) (Some y0) s0) = \<lparr>vx = x0, vy = y0\<rparr> \<and>
         (\<bar>x0 - px\<bar> < 10 \<longrightarrow>
            velocity (onPress False (Some px) (Some py) s) = \<lparr>vx = 0, vy = 0\<rparr>) \<and>
         (\<bar>x0 - px\<bar> \<ge> 10 \<longrightarrow>
            velocity (onPress False (Some px) (Some py) s) = velocity s)"
  using assms by (simp add: onPress_def Let_def)

theorem tap_vs_drag_witness:
  "pressStartPoint (run [Press True (Some 100) (Some 50), Move 100 50, Move 93 47]
                     (constructor [] 400 500)) = \<lparr>vx = 100, vy = 50\<rparr> \<and>
   velocity (run [Press True (Some 100) (Some 50), Move 100 50, Move 93 47]
              (constructor [] 400 500)) = \<lparr>vx = 7, vy = 3\<rparr> \<and>
   velocity (onPress False (Some 104) (Some 300)
     (run [Press True (Some 100) (Some 50), Move 100 50, Move 93 47] (constructor [] 400 500)))
     = \<lparr>vx = 0, vy = 0\<rparr> \<and>
   velocity (onPress False (Some 110) (Some 50)
     (run [Press True (Some 100) (Some 50), Move 100 50, Move 93 47] (constructor [] 400 500)))
     = \<lparr>vx = 7, vy = 3\<rparr>"
proof -
  define S where "S = run [Press True (Some 100) (Some 50), Move 100 50, Move 93 47]
                        (constructor [] 400 500)"
  have p: "pressStartPoint S = \<lparr>vx = 100, vy = 50\<rparr>"
    and v: "velocity S = \<lparr>vx = 7, vy = 3\<rparr>"
    by (simp_all add: S_def eval_defs)
  have "velocity (onPress False (Some 104) (Some 300) S) = \<lparr>vx = 0, vy = 0\<rparr>"
    using tap_vs_drag [OF p, of S 104 300] by simp
  moreover have "velocity (onPress False (Some 110) (Some 50) S) = \<lparr>vx = 7, vy = 3\<rparr>"
    using tap_vs_drag [OF p, of S 110 50] v by simp
  ultimately show ?thesis using p v unfolding S_def by simp
qed

text \<open>
  C6 (inertia termination), as amended. With \<open>isPressed = false\<close> and no further
  input, repeated calls of \<open>animateVelocity\<close> reach the velocity \<open>(0, 0)\<close> exactly,
  after a number of calls that depends only on a bound \<open>M\<close> of the magnitudes of the
  two components. With the decay factor 0.9 and the cutoff 0.1, 67 calls are enough
  when both components have magnitude at most 100.
\<close>

theorem inertia_terminates:
  "(\<exists>N. \<forall>s. \<not> isPressed s \<and> \<bar>vx (velocity s)\<bar> \<le> M \<and> \<bar>vy (velocity s)\<bar> \<le> M
         \<longrightarrow> velocity (animateN N s) = \<lparr>vx = 0, vy = 0\<rparr>) \<and>
   (\<not> isPressed s \<and> \<bar>vx (velocity s)\<bar> \<le> 100 \<and> \<bar>vy (velocity s)\<bar> \<le> 100
      \<longrightarrow> velocity (animateN 67 s) = \<lparr>vx = 0, vy = 0\<rparr>)"
proof -
  obtain n where n: "M * 0.9 ^ n < 0.1" using bound_steps by blast
  have "velocity (animateN (Suc n) t) = \<lparr>vx = 0, vy = 0\<rparr>"
    if "\<not> isPressed t \<and> \<bar>vx (velocity t)\<bar> \<le> M \<and> \<bar>vy (velocity t)\<bar> \<le> M" for t
  proof -
    have "\<bar>vx (velocity t)\<bar> * 0.9 ^ n \<le> M * 0.9 ^ n" "\<bar>vy (velocity t)\<bar> * 0.9 ^ n \<le> M * 0.9 ^ n"
      using that by (simp_all add: mult_right_mono)
    then have "\<bar>vx (velocity t)\<bar> * 0.9 ^ n < 0.1" "\<bar>vy (velocity t)\<bar> * 0.9 ^ n < 0.1"
      using n by linarith+
    then show ?thesis
      using that by (intro animateN_reaches_zero) blast+
  qed
  then have a: "\<exists>N. \<forall>s. \<not> isPressed s \<and> \<bar>vx (velocity s)\<bar> \<le> M \<and> \<bar>vy (velocity s)\<bar> \<le> M
         \<longrightarrow> velocity (animateN N s) = \<lparr>vx = 0, vy = 0\<rparr>"
    by blast
  have c: "(100::real) * 0.9 ^ 66 < 0.1" by (simp add: power_divide)
  have b: "velocity (animateN 67 s) = \<lparr>vx = 0, vy = 0\<rparr>"
    if "\<not> isPressed s \<and> \<bar>vx (velocity s)\<bar> \<le> 100 \<and> \<bar>vy (velocity s)\<bar> \<le> 100"
  proof -
    have "\<bar>vx (velocity s)\<bar> * 0.9 ^ 66 \<le> 100 * 0.9 ^ 66" "\<bar>vy (velocity s)\<bar> * 0.9 ^ 66 \<le> 100 * 0.9 ^ 66"
      using that by (simp_all add: mult_right_mono)
    then have "\<bar>vx (velocity s)\<bar> * 0.9 ^ 66 < 0.1" "\<bar>vy (velocity s)\<bar> * 0.9 ^ 66 < 0.1"
      using c by linarith+
    then have "velocity (animateN (Suc 66) s) = \<lparr>vx = 0, vy = 0\<rparr>"
      using that by (intro animateN_reaches_zero) blast+
    then show ?thesis by simp
  qed
  show ?thesis using a b by blast
qed

theorem inertia_terminates_witness:
  "\<not> isPressed (run [Press True (Some 0) (Some 0), Move 0 0, Move (-100) 0,
                       Press False (Some (-100)) (Some 0)] (constructor [] 400 500)) \<and>
   velocity (run [Press True (Some 0) (Some 0), Move 0 0, Move (-100) 0,
                  Press False (Some (-100)) (Some 0)] (constructor [] 400 500))
     = \<lparr>vx = 100, vy = 0\<rparr> \<and>
   velocity (animateN 67 (run [Press True (Some 0) (Some 0), Move 0 0, Move (-100) 0,
                  Press False (Some (-100)) (Some 0)] (constructor [] 400 500)))
     = \<lparr>vx = 0, vy = 0\<rparr> \<and>
   (\<exists>N. velocity (animateN N (run [Press True (Some 0) (Some 0), Move 0 0, Move (-100) 0,
                  Press False (Some (-100)) (Some 0)] (constructor [] 400 500)))
     = \<lparr>vx = 0, vy = 0\<rparr>)"
proof -
  define S where "S = run [Press True (Some 0) (Some 0), Move 0 0, Move (-100) 0,
                  Press False (Some (-100)) (Some 0)] (constructor [] 400 500)"
  have p: "\<not> isPressed S" and v: "velocity S = \<lparr>vx = 100, vy = 0\<rparr>"
    by (simp_all add: S_def eval_defs)
  have h: "\<not> isPressed S \<and> \<bar>vx (velocity S)\<bar> \<le> 100 \<and> \<bar>vy (velocity S)\<bar> \<le> 100"
    using p v by simp
  have a: "velocity (animateN 67 S) = \<lparr>vx = 0, vy = 0\<rparr>"
    using inertia_terminates [of 100 S] h by blast
  have b: "\<exists>N. velocity (animateN N S) = \<lparr>vx = 0, vy = 0\<rparr>"
    using inertia_terminates [of 100 S] h by blast
  show ?thesis using p v a b unfolding S_def by simp
qed

text \<open>
  C6 as stated fails: from the velocity \<open>(100, 0)\<close>, left by a drag of 100 pixels,
  the velocity is not \<open>(0, 0)\<close> after 44 calls, nor after 66.
\<close>

theorem inertia_needs_67_calls:
  "\<not> isPressed (run [Press True (Some 0) (Some 0), Move 0 0, Move (-100) 0,
                       Press False (Some (-100)) (Some 0)] (constructor [] 400 500)) \<and>
   velocity (run [Press True (Some 0) (Some 0), Move 0 0, Move (-100) 0,
                  Press False (Some (-100)) (Some 0)] (constructor [] 400 500))
     = \<lparr>vx = 100, vy = 0\<rparr> \<and>
   velocity (animateN 44 (run [Press True (Some 0) (Some 0), Move 0 0, Move (-100) 0,
                  Press False (Some (-100)) (Some 0)] (constructor [] 400 500)))
     \<noteq> \<lparr>vx = 0, vy = 0\<rparr> \<and>
   velocity (animateN 66 (run [Press True (Some 0) (Some 0), Move 0 0, Move (-100) 0,
                  Press False (Some (-100)) (Some 0)] (constructor [] 400 500)))
     \<noteq> \<lparr>vx = 0, vy = 0\<rparr>"
proof -
  define S where "S = run [Press True (Some 0) (Some 0), Move 0 0, Move (-100) 0,
                  Press False (Some (-100)) (Some 0)] (constructor [] 400 500)"
  have p: "\<not> isPressed S" and v: "velocity S = \<lparr>vx = 100, vy = 0\<rparr>"
    by (simp_all add: S_def eval_defs)
  have "(0.1::real) \<le> \<bar>100\<bar> * 0.9 ^ 43" by (simp add: power_divide)
  then have "velocity (animateN (Suc 43) S) = \<lparr>vx = 100 * 0.9 ^ Suc 43, vy = 0 * 0.9 ^ Suc 43\<rparr>"
    using animateN_still_moving [OF p, of 43] by (simp only: v Vec2.simps)
  then have a: "velocity (animateN 44 S) \<noteq> \<lparr>vx = 0, vy = 0\<rparr>" by simp
  have "(0.1::real) \<le> \<bar>100\<bar> * 0.9 ^ 65" by (simp add: power_divide)
  then have "velocity (animateN (Suc 65) S) = \<lparr>vx = 100 * 0.9 ^ Suc 65, vy = 0 * 0.9 ^ Suc 65\<rparr>"
    using animateN_still_moving [OF p, of 65] by (simp only: v Vec2.simps)
  then have b: "velocity (animateN 66 S) \<noteq> \<lparr>vx = 0, vy = 0\<rparr>" by simp
  show ?thesis using p v a b unfolding S_def by simp
qed

text \<open>
  C7 (camera/viewport coupling). After \<open>panCamera\<close>, however it is reached
  (\<open>onWheel\<close>, \<open>onMove\<close> while pressed, \<open>animateVelocity\<close> when it pans), and after
  \<open>resize\<close>/\<open>onResize\<close>, the viewport rectangle has \<open>minX = -camera.x\<close>,
  \<open>minY = -camera.y\<close>, \<open>maxX = minX + width\<close> and \<open>maxY = minY + height\<close>; hence it
  has them after every sequence of public operations on a constructed instance.
\<close>

theorem camera_viewport_coupling:
  "coupled (panCamera dx dy s) \<and>
   coupled (resize w h s) \<and>
   coupled (onResize w h s) \<and>
   coupled (onWheel dx dy s) \<and>
   (isPressed s \<longrightarrow> coupled (onMove px py s)) \<and>
   (\<not> isPressed s \<and> (\<bar>vx (velocity s)\<bar> \<ge> 0.1 \<or> \<bar>vy (velocity s)\<bar> \<ge> 0.1) \<longrightarrow>
      coupled (animateVelocity s)) \<and>
   coupled (run es (constructor em w0 h0))"
proof -
  have move: "coupled (onMove px py s)" if "isPressed s"
    using that coupled_panCamera
    by (simp add: onMove_def Let_def coupled_def split: option.splits)
  have anim: "coupled (animateVelocity s)"
    if "\<not> isPressed s" and "\<bar>vx (velocity s)\<bar> \<ge> 0.1 \<or> \<bar>vy (velocity s)\<bar> \<ge> 0.1"
    using that coupled_panCamera [of "vx (velocity s)" "vy (velocity s)" s]
    by (auto simp: animateVelocity_def Let_def coupled_def)
  have reach: "coupled (run es (constructor em w0 h0))"
    using geom_inv_reachable [of es em w0 h0] by (simp add: geom_inv_def)
  show ?thesis
    using move anim reach
    by (simp add: coupled_panCamera coupled_resize onResize_def onWheel_def)
qed

theorem camera_viewport_coupling_witness:
  "isPressed (run [Press True (Some 1) (Some 2)] (constructor [] 400 500)) \<and>
   coupled (onMove 3 4 (run [Press True (Some 1) (Some 2)] (constructor [] 400 500))) \<and>
   \<not> isPressed (run [Press True (Some 0) (Some 0), Move 0 0, Move (-100) 0,
                       Press False (Some (-100)) (Some 0)] (constructor [] 400 500)) \<and>
   coupled (animateVelocity (run [Press True (Some 0) (Some 0), Move 0 0, Move (-100) 0,
                       Press False (Some (-100)) (Some 0)] (constructor [] 400 500))) \<and>
   coupled (run [Wheel 30 0, Resize 800 600] (constructor [] 400 500))"
proof -
  define S where "S = run [Press True (Some 1) (Some 2)] (constructor [] 400 500)"
  define T where "T = run [Press True (Some 0) (Some 0), Move 0 0, Move (-100) 0,
                       Press False (Some (-100)) (Some 0)] (constructor [] 400 500)"
  have s: "isPressed S" by (simp add: S_def eval_defs)
  have t: "\<not> isPressed T" and v: "velocity T = \<lparr>vx = 100, vy = 0\<rparr>"
    by (simp_all add: T_def eval_defs)
  have "coupled (onMove 3 4 S)"
    using camera_viewport_coupling [of 0 0 S 0 0 3 4 "[]" "[]" 0 0] s by blast
  moreover have "coupled (animateVelocity T)"
    using camera_viewport_coupling [of 0 0 T 0 0 3 4 "[]" "[]" 0 0] t v by simp
  moreover have "coupled (run [Wheel 30 0, Resize 800 600] (constructor [] 400 500))"
    using camera_viewport_coupling [of 0 0 S 0 0 3 4 "[Wheel 30 0, Resize 800 600]" "[]" 400 500]
    by blast
  ultimately show ?thesis using s t unfolding S_def T_def by simp
qed

text \<open>
  C8 (resize idempotence). \<open>onResize(w, h)\<close> called twice in succession leaves
  exactly the state that one call leaves, for all \<open>w\<close> and \<open>h\<close>: the same viewport
  rectangle, cell size and canvas extent (and every other field).
\<close>

theorem resize_idempotent:
  "onResize w h (onResize w h s) = onResize w h s"
  by (simp add: onResize_def resize_def Let_def)

theorem resize_idempotent_witness:
  "onResize 800 600 (onResize 800 600 (run [Wheel 30 0] (constructor [] 400 500)))
     = onResize 800 600 (run [Wheel 30 0] (constructor [] 400 500)) \<and>
   cell (onResize 800 600 (run [Wheel 30 0] (constructor [] 400 500)))
     = \<lparr>width = 200, height = 250\<rparr>"
proof -
  have "cell (onResize 800 600 (run [Wheel 30 0] (constructor [] 400 500)))
          = \<lparr>width = 200, height = 250\<rparr>"
    by (simp add: eval_defs)
  then show ?thesis
    using resize_idempotent [of 800 600 "run [Wheel 30 0] (constructor [] 400 500)"] by simp
qed

text \<open>
  C9 (scale invariant). After construction and any sequence of public operations
  (\<open>render\<close>, \<open>onMove\<close>, \<open>onPress\<close>, \<open>onClick\<close>, \<open>onWheel\<close>, \<open>onResize\<close>), the scale
  component of the camera is still its initial value 1, and so strictly positive.
\<close>

theorem scale_invariant:
  "vz (camera (run es (constructor em w h))) = 1 \<and>
   0 < vz (camera (run es (constructor em w h)))"
  using geom_inv_reachable [of es em w h] by (simp add: geom_inv_def)

theorem scale_invariant_witness:
  "vz (camera (run [Press True (Some 1) (Some 2), Move 30 40, Press False None None,
                    Render False 16, Wheel 5 5, Click 1 1, Resize 800 600]
                 (constructor [''a'', ''b''] 400 500))) = 1"
  using scale_invariant [of "[Press True (Some 1) (Some 2), Move 30 40, Press False None None,
                    Render False 16, Wheel 5 5, Click 1 1, Resize 800 600]" "[''a'', ''b'']" 400 500]
  by simp

text \<open>
  C10 (release without coordinates). \<open>onPress(false)\<close> with \<open>x\<close> or \<open>y\<close> omitted
  leaves the velocity unchanged, whatever \<open>pressStartPoint\<close> is.
\<close>

theorem onPress_release_undefined:
  "xo = None \<or> yo = None \<Longrightarrow> velocity (onPress False xo yo s) = velocity s"
  by (auto simp: onPress_def Let_def split: option.splits)

theorem onPress_release_undefined_witness:
  "velocity (run [Press True (Some 0) (Some 0), Move 0 0, Move (-100) 0]
              (constructor [] 400 500)) = \<lparr>vx = 100, vy = 0\<rparr> \<and>
   velocity (onPress False None None
     (run [Press True (Some 0) (Some 0), Move 0 0, Move (-100) 0] (constructor [] 400 500)))
     = \<lparr>vx = 100, vy = 0\<rparr> \<and>
   velocity (onPress False (Some 3) None
     (run [Press True (Some 0) (Some 0), Move 0 0, Move (-100) 0] (constructor [] 400 500)))
     = \<lparr>vx = 100, vy = 0\<rparr>"
proof -
  define S where "S = run [Press True (Some 0) (Some 0), Move 0 0, Move (-100) 0]
                        (constructor [] 400 500)"
  have v: "velocity S = \<lparr>vx = 100, vy = 0\<rparr>"
    by (simp add: S_def eval_defs)
  have "velocity (onPress False None None S) = velocity S"
    using onPress_release_undefined [of None None S] by simp
  moreover have "velocity (onPress False (Some 3) None S) = velocity S"
    using onPress_release_undefined [of "Some 3" None S] by simp
  ultimately show ?thesis using v unfolding S_def by simp
qed

end
